theory Spec2Isabelle
  imports Main "HOL-Library.Word"
begin

unbundle bit_operations_syntax

section \<open>Data model of paramfetch.go\<close>

type_synonym byte = "8 word"

text \<open>
  Go errors as values. \<open>OsError\<close> stands for the errors produced by the packages
  \<open>os\<close>, \<open>io\<close>, \<open>net/url\<close>, \<open>net/http\<close> and \<open>encoding/json\<close>; its kind records what
  \<open>os.IsNotExist\<close> and \<open>os.IsExist\<close> answer. \<open>Errorf\<close> is \<open>xerrors.Errorf\<close> without
  a wrapped cause, \<open>Wrap m e\<close> is \<open>xerrors.Errorf(m + ": %w", e)\<close>, and \<open>Multi\<close> is the
  combined error of \<open>multierr.Combine\<close> for two errors or more.
\<close>

datatype errkind = NotExist | Exist | Other

datatype error =
    OsError errkind string
  | Errorf string
  | Wrap string error
  | Multi "error list"

fun intercalate :: "string \<Rightarrow> string list \<Rightarrow> string" where
  "intercalate sep [] = []"
| "intercalate sep [x] = x"
| "intercalate sep (x # y # ys) = x @ sep @ intercalate sep (y # ys)"

fun error_string :: "error \<Rightarrow> string" where
  "error_string (OsError k m) = m"
| "error_string (Errorf m) = m"
| "error_string (Wrap m e) = m @ '': '' @ error_string e"
| "error_string (Multi es) = intercalate ''; '' (map error_string es)"

fun os_IsNotExist :: "error option \<Rightarrow> bool" where
  "os_IsNotExist (Some (OsError NotExist m)) = True"
| "os_IsNotExist _ = False"

fun os_IsExist :: "error option \<Rightarrow> bool" where
  "os_IsExist (Some (OsError Exist m)) = True"
| "os_IsExist _ = False"

text \<open>\<open>multierr.Combine\<close>: nil for no error, the error itself for one, a combined error otherwise.\<close>

fun multierr_Combine :: "error list \<Rightarrow> error option" where
  "multierr_Combine [] = None"
| "multierr_Combine [e] = Some e"
| "multierr_Combine es = Some (Multi es)"

text \<open>The struct \<open>paramFile\<close> (lines 33-37) and the struct \<open>fetch\<close> (lines 39-44).\<close>

record paramFile =
  Cid :: string
  Digest :: string
  SectorSize :: "64 word"

text \<open>
  Of \<open>fetch\<close>, the field \<open>errs\<close> is state; the wait group and the mutex \<open>fetchLk\<close> show
  in the trace of effects below (\<open>Lock\<close>, \<open>Unlock\<close>).
\<close>

record fetch =
  errs :: "error list"

text \<open>The response of \<open>http.DefaultClient.Do\<close>: the declared length, the bytes the body
  delivers, and the error (if any) with which reading the body ends.\<close>

record response =
  ContentLength :: int
  Body :: "byte list"
  BodyErr :: "error option"

text \<open>Effects the code has on the outside, in the order they happen.\<close>

datatype level = Info | Warn

datatype event =
    Log level string
  | Mkdir string
  | Open string
  | OpenFile string
  | HttpDo string string
  | Remove string
  | Lock
  | Unlock

text \<open>
  The world the package runs in: the environment variables (\<open>os.Getenv\<close> gives the empty
  string for an unset one), the regular files with their content, the package variable
  \<open>checked\<close> (line 30, a map to \<open>struct{}\<close>, that is a set of paths), the remote side
  (what a GET of a URL with a Range header is answered with), and for every system call
  that can fail for a reason outside the program (permissions, a full disk, a directory
  in the way) the error it then returns. \<open>write_fault\<close> gives the number of bytes
  that still reach the file before the write fails.
\<close>

record world =
  env :: "string \<Rightarrow> string"
  files :: "string \<rightharpoonup> byte list"
  checked :: "string set"
  http :: "string \<Rightarrow> string \<Rightarrow> error + response"
  mkdir_fault :: "string \<rightharpoonup> error"
  open_fault :: "string \<rightharpoonup> error"
  read_fault :: "string \<rightharpoonup> error"
  openfile_fault :: "string \<rightharpoonup> error"
  stat_fault :: "string \<rightharpoonup> error"
  write_fault :: "string \<rightharpoonup> nat \<times> error"
  remove_fault :: "string \<rightharpoonup> error"
  trace :: "event list"

text \<open>
  The functions of other packages that the code calls and whose results it only passes on:
  \<open>blake2b.New512\<close> fed with all the bytes and read with \<open>Sum(nil)\<close> (no key is passed),
  \<open>json.Unmarshal\<close> into a map (here the entries in the order the \<open>range\<close> loop
  visits them), \<open>url.Parse\<close> followed by \<open>URL.String\<close>, the validity check
  of \<open>http.NewRequestWithContext\<close>, and \<open>filepath.Join\<close>.
\<close>

record lib =
  blake2b_Sum512 :: "byte list \<Rightarrow> byte list"
  json_Unmarshal :: "byte list \<Rightarrow> error + (string \<times> paramFile) list"
  url_Parse :: "string \<Rightarrow> error + string"
  http_NewRequest :: "string \<Rightarrow> error option"
  filepath_Join :: "string \<Rightarrow> string \<Rightarrow> string"

definition emit :: "event \<Rightarrow> world \<Rightarrow> world" where
  "emit ev w = w\<lparr>trace := trace w @ [ev]\<rparr>"

section \<open>Standard-library functions the code computes with\<close>

text \<open>\<open>hex.EncodeToString\<close>: two characters of the lower-case table for every byte.\<close>

definition hextable :: string where
  "hextable = ''0123456789abcdef''"

definition hex_EncodeToString :: "byte list \<Rightarrow> string" where
  "hex_EncodeToString src =
     concat (map (\<lambda>v. [hextable ! unat (drop_bit 4 v), hextable ! unat (v AND 0x0f)]) src)"

text \<open>\<open>strings.HasSuffix\<close>.\<close>

definition strings_HasSuffix :: "string \<Rightarrow> string \<Rightarrow> bool" where
  "strings_HasSuffix s suffix =
     (length suffix \<le> length s \<and> drop (length s - length suffix) s = suffix)"

text \<open>\<open>strconv.FormatInt(n, 10)\<close>.\<close>

definition digit_char :: "nat \<Rightarrow> char" where
  "digit_char d = ''0123456789'' ! d"

fun format_nat :: "nat \<Rightarrow> string" where
  "format_nat n = (if n < 10 then [digit_char n] else format_nat (n div 10) @ [digit_char (n mod 10)])"

declare format_nat.simps [simp del]

definition strconv_FormatInt :: "int \<Rightarrow> string" where
  "strconv_FormatInt i = (if i < 0 then ''-'' @ format_nat (nat (- i)) else format_nat (nat i))"

section \<open>System calls\<close>

definition os_Mkdir :: "string \<Rightarrow> world \<Rightarrow> error option \<times> world" where
  "os_Mkdir p w = (mkdir_fault w p, emit (Mkdir p) w)"

text \<open>\<open>os.Open\<close>: the content the handle will read, or the error.\<close>

definition os_Open :: "string \<Rightarrow> world \<Rightarrow> (error + byte list) \<times> world" where
  "os_Open p w =
     (case open_fault w p of
        Some e \<Rightarrow> (Inl e, emit (Open p) w)
      | None \<Rightarrow>
          (case files w p of
             None \<Rightarrow> (Inl (OsError NotExist (''open '' @ p @ '': no such file or directory'')),
                       emit (Open p) w)
           | Some d \<Rightarrow> (Inr d, emit (Open p) w)))"

text \<open>\<open>io.Copy(h, f)\<close>: all the bytes of the file reach the hash, or the read fails.\<close>

definition read_all :: "string \<Rightarrow> byte list \<Rightarrow> world \<Rightarrow> error + byte list" where
  "read_all p d w = (case read_fault w p of Some e \<Rightarrow> Inl e | None \<Rightarrow> Inr d)"

text \<open>\<open>os.OpenFile(p, O_RDWR|O_CREATE|O_APPEND, 0666)\<close>: an absent file is created empty.\<close>

definition create_if_absent :: "string \<Rightarrow> world \<Rightarrow> world" where
  "create_if_absent p w =
     (case files w p of None \<Rightarrow> w\<lparr>files := (files w)(p \<mapsto> [])\<rparr> | Some d \<Rightarrow> w)"

definition os_OpenFile :: "string \<Rightarrow> world \<Rightarrow> error option \<times> world" where
  "os_OpenFile p w =
     (case openfile_fault w p of
        Some e \<Rightarrow> (Some e, emit (OpenFile p) w)
      | None \<Rightarrow> (None, emit (OpenFile p) (create_if_absent p w)))"

text \<open>\<open>outf.Stat()\<close> followed by \<open>Size()\<close>.\<close>

definition stat_Size :: "string \<Rightarrow> world \<Rightarrow> error + int" where
  "stat_Size p w =
     (case stat_fault w p of
        Some e \<Rightarrow> Inl e
      | None \<Rightarrow> (case files w p of None \<Rightarrow> Inr 0 | Some d \<Rightarrow> Inr (int (length d))))"

text \<open>A write through a handle opened with \<open>O_APPEND\<close> lands at the end of the file.\<close>

definition append_file :: "string \<Rightarrow> byte list \<Rightarrow> world \<Rightarrow> world" where
  "append_file p bs w =
     w\<lparr>files := (files w)(p \<mapsto> (case files w p of None \<Rightarrow> [] | Some d \<Rightarrow> d) @ bs)\<rparr>"

text \<open>
  \<open>io.Copy(outf, body)\<close>: every chunk read is written before the read error is looked
  at, and a failing write ends the copy with the write's error.
\<close>

definition io_Copy :: "string \<Rightarrow> response \<Rightarrow> world \<Rightarrow> error option \<times> world" where
  "io_Copy p resp w =
     (case write_fault w p of
        None \<Rightarrow> (BodyErr resp, append_file p (Body resp) w)
      | Some (n, e) \<Rightarrow>
          if n < length (Body resp) then (Some e, append_file p (take n (Body resp)) w)
          else (BodyErr resp, append_file p (Body resp) w))"

definition os_Remove :: "string \<Rightarrow> world \<Rightarrow> error option \<times> world" where
  "os_Remove p w =
     (case remove_fault w p of
        Some e \<Rightarrow> (Some e, emit (Remove p) w)
      | None \<Rightarrow>
          (case files w p of
             None \<Rightarrow> (Some (OsError NotExist (''remove '' @ p @ '': no such file or directory'')),
                       emit (Remove p) w)
           | Some d \<Rightarrow> (None, emit (Remove p) (w\<lparr>files := (files w)(p := None)\<rparr>))))"

section \<open>The functions of paramfetch.go\<close>

definition gateway :: string where
  "gateway = ''https://proofs.filecoin.io/ipfs/''"

definition paramdir :: string where
  "paramdir = ''/data/lotus/folder/filecoin-proof-parameters''"

definition dirEnv :: string where
  "dirEnv = ''FIL_PROOFS_PARAMETER_CACHE''"

definition getParamDir :: "world \<Rightarrow> string" where
  "getParamDir w = (if env w dirEnv = '''' then paramdir else env w dirEnv)"

text \<open>\<open>checkFile\<close>, lines 111-148.\<close>

definition mismatch :: "string \<Rightarrow> string \<Rightarrow> string \<Rightarrow> error" where
  "mismatch path strSum digest =
     Errorf (''checksum mismatch in param file '' @ path @ '', '' @ strSum @ '' != '' @ digest)"

definition checkFile :: "lib \<Rightarrow> string \<Rightarrow> paramFile \<Rightarrow> world \<Rightarrow> error option \<times> world" where
  "checkFile L path info w =
     (if env w ''TRUST_PARAMS'' = ''1'' then
        (None, emit (Log Warn ''Assuming parameter files are ok. DO NOT USE IN PRODUCTION'') w)
      else if path \<in> checked w then (None, w)
      else
        (case os_Open path w of
           (Inl err, w1) \<Rightarrow> (Some err, w1)
         | (Inr f, w1) \<Rightarrow>
             (case read_all path f w1 of
                Inl err \<Rightarrow> (Some err, w1)
              | Inr content \<Rightarrow>
                  (let sum = blake2b_Sum512 L content;
                       strSum = hex_EncodeToString (take 16 sum)
                   in if strSum = Digest info then
                        (None, (emit (Log Info (''Parameter file '' @ path @ '' is ok'')) w1)
                                 \<lparr>checked := insert path (checked w1)\<rparr>)
                      else (Some (mismatch path strSum (Digest info)), w1)))))"

text \<open>
  \<open>doFetch\<close>, lines 168-217. The progress bar (package \<open>pb\<close>) only counts the bytes
  that pass and is left out; \<open>ContentLength\<close> feeds nothing else.
\<close>

definition doFetch :: "lib \<Rightarrow> string \<Rightarrow> paramFile \<Rightarrow> world \<Rightarrow> error option \<times> world" where
  "doFetch L out info w =
     (let gw = (if env w ''IPFS_GATEWAY'' = '''' then gateway else env w ''IPFS_GATEWAY'');
          w1 = emit (Log Info (''Fetching '' @ out @ '' from '' @ gw)) w
      in case os_OpenFile out w1 of
           (Some err, w2) \<Rightarrow> (Some err, w2)
         | (None, w2) \<Rightarrow>
             (case stat_Size out w2 of
                Inl err \<Rightarrow> (Some err, w2)
              | Inr fsize \<Rightarrow>
                  (let hrange = ''bytes='' @ strconv_FormatInt fsize @ ''-''
                   in case url_Parse L (gw @ Cid info) of
                        Inl err \<Rightarrow> (Some err, w2)
                      | Inr url \<Rightarrow>
                          (let w3 = emit (Log Info (''GET '' @ url)) w2
                           in case http_NewRequest L url of
                                Some err \<Rightarrow> (Some err, w3)
                              | None \<Rightarrow>
                                  (case http w3 url hrange of
                                     Inl err \<Rightarrow> (Some err, emit (HttpDo url hrange) w3)
                                   | Inr resp \<Rightarrow> io_Copy out resp (emit (HttpDo url hrange) w3))))))"

text \<open>
  The body of the goroutine that \<open>maybeFetchAsync\<close> starts (lines 80-108), run from its
  first statement to its return. \<open>fetch_locked\<close> is the part after
  \<open>ft.fetchLk.Lock()\<close> (lines 96-107); the deferred \<open>Unlock\<close> is the last effect on
  each of its ways out.
\<close>

definition record_err :: "error \<Rightarrow> fetch \<Rightarrow> fetch" where
  "record_err e ft = ft\<lparr>errs := errs ft @ [e]\<rparr>"

definition fetch_locked :: "lib \<Rightarrow> string \<Rightarrow> paramFile \<Rightarrow> fetch \<times> world \<Rightarrow> fetch \<times> world" where
  "fetch_locked L path info st =
     (case st of (ft, w) \<Rightarrow>
        (case doFetch L path info w of
           (Some err, w1) \<Rightarrow>
             (record_err (Wrap (''fetching file '' @ path @ '' failed'') err) ft, emit Unlock w1)
         | (None, w1) \<Rightarrow>
             (case checkFile L path info w1 of
                (None, w2) \<Rightarrow> (ft, emit Unlock w2)
              | (Some err, w2) \<Rightarrow>
                  (let ft1 = record_err (Wrap (''checking file '' @ path @ '' failed'') err) ft
                   in case os_Remove path w2 of
                        (None, w3) \<Rightarrow> (ft1, emit Unlock w3)
                      | (Some err', w3) \<Rightarrow>
                          (record_err (Wrap (''remove file '' @ path @ '' failed'') err') ft1,
                           emit Unlock w3)))))"

definition warn_unless_absent :: "error option \<Rightarrow> world \<Rightarrow> world" where
  "warn_unless_absent err w =
     (if \<not> os_IsNotExist err \<and> err \<noteq> None then emit (Log Warn (error_string (the err))) w
      else w)"

definition maybeFetch :: "lib \<Rightarrow> string \<Rightarrow> paramFile \<Rightarrow> fetch \<times> world \<Rightarrow> fetch \<times> world" where
  "maybeFetch L name info st =
     (case st of (ft, w) \<Rightarrow>
        (let path = filepath_Join L (getParamDir w) name
         in case checkFile L path info w of
              (err, w1) \<Rightarrow>
                (let w2 = warn_unless_absent err w1
                 in if err = None then (ft, w2)
                    else fetch_locked L path info (ft, emit Lock w2))))"

text \<open>
  \<open>GetParams\<close>, lines 53-75, on the schedule in which the goroutines run one after the
  other in the order of the loop and \<open>wait\<close> returns when all of them are done.
  \<open>loop_body\<close> is lines 66-72.
\<close>

definition loop_body :: "lib \<Rightarrow> 64 word \<Rightarrow> string \<times> paramFile \<Rightarrow> fetch \<times> world \<Rightarrow> fetch \<times> world" where
  "loop_body L storageSize entry st =
     (case entry of (name, info) \<Rightarrow>
        if storageSize \<noteq> SectorSize info \<and> strings_HasSuffix name ''.params'' then st
        else maybeFetch L name info st)"

definition wait :: "fetch \<times> world \<Rightarrow> error option \<times> world" where
  "wait st =
     (case st of (ft, w) \<Rightarrow>
        (multierr_Combine (errs ft), emit (Log Info ''parameter and key-fetching complete'') w))"

definition GetParams :: "lib \<Rightarrow> byte list \<Rightarrow> 64 word \<Rightarrow> world \<Rightarrow> error option \<times> world" where
  "GetParams L paramBytes storageSize w =
     (case os_Mkdir (getParamDir w) w of
        (err, w1) \<Rightarrow>
          if err \<noteq> None \<and> \<not> os_IsExist err then (err, w1)
          else
            (case json_Unmarshal L paramBytes of
               Inl err \<Rightarrow> (Some err, w1)
             | Inr params \<Rightarrow> wait (fold (loop_body L storageSize) params (\<lparr>errs = []\<rparr>, w1))))"

section \<open>What the trace shows\<close>

text \<open>
  The requests sent, the acquisitions of \<open>fetchLk\<close>, the calls of \<open>os.OpenFile\<close> (one
  per call of \<open>doFetch\<close>), the calls of \<open>os.Open\<close> (one per file that \<open>checkFile\<close>
  hashes) and the calls of \<open>os.Remove\<close>.
\<close>

fun is_request :: "event \<Rightarrow> bool" where
  "is_request (HttpDo url r) = True"
| "is_request _ = False"

fun is_open :: "event \<Rightarrow> bool" where
  "is_open (Open p) = True"
| "is_open _ = False"

fun is_openfile :: "event \<Rightarrow> bool" where
  "is_openfile (OpenFile p) = True"
| "is_openfile _ = False"

fun is_remove :: "event \<Rightarrow> bool" where
  "is_remove (Remove p) = True"
| "is_remove _ = False"

fun is_lock :: "event \<Rightarrow> bool" where
  "is_lock Lock = True"
| "is_lock _ = False"

definition requests :: "world \<Rightarrow> event list" where
  "requests w = filter is_request (trace w)"

definition gate_acquisitions :: "world \<Rightarrow> event list" where
  "gate_acquisitions w = filter is_lock (trace w)"

definition fetch_attempts :: "world \<Rightarrow> event list" where
  "fetch_attempts w = filter is_openfile (trace w)"

definition verification_reads :: "world \<Rightarrow> event list" where
  "verification_reads w = filter is_open (trace w)"

definition removals :: "world \<Rightarrow> event list" where
  "removals w = filter is_remove (trace w)"

text \<open>The gateway \<open>doFetch\<close> uses, the content a file has (none when absent), and the
  bytes of a response body that \<open>io.Copy\<close> gets into the file.\<close>

definition gw_of :: "world \<Rightarrow> string" where
  "gw_of w = (if env w ''IPFS_GATEWAY'' = '''' then gateway else env w ''IPFS_GATEWAY'')"

definition old_content :: "string \<Rightarrow> world \<Rightarrow> byte list" where
  "old_content p w = (case files w p of None \<Rightarrow> [] | Some d \<Rightarrow> d)"

definition written :: "string \<Rightarrow> response \<Rightarrow> world \<Rightarrow> byte list" where
  "written p resp w =
     (case write_fault w p of
        None \<Rightarrow> Body resp
      | Some (n, e) \<Rightarrow> if n < length (Body resp) then take n (Body resp) else Body resp)"

text \<open>An upper-case ASCII letter, \<open>A\<close> to \<open>Z\<close>.\<close>

definition is_upper :: "char \<Rightarrow> bool" where
  "is_upper c = (65 \<le> (of_char c :: nat) \<and> (of_char c :: nat) \<le> 90)"

section \<open>Concrete inputs\<close>

text \<open>
  A library whose digest is 64 copies of the byte \<open>0xa0 + length\<close>, entries for the
  content identifier \<open>Qm1\<close>, and worlds with the parameter directory \<open>/p\<close>: an empty
  one whose gateway answers with three bytes, one where the file is already there, one
  whose gateway cannot be reached, one where the file cannot be opened for writing, and one
  with a gateway address that does not end in a slash.
\<close>

definition lib0 :: lib where
  "lib0 = \<lparr>blake2b_Sum512 = (\<lambda>c. replicate 64 (0xa0 + of_nat (length c))),
           json_Unmarshal = (\<lambda>bs. Inr []),
           url_Parse = Inr,
           http_NewRequest = (\<lambda>u. None),
           filepath_Join = (\<lambda>d n. d @ ''/'' @ n)\<rparr>"

definition entry_ok :: paramFile where
  "entry_ok = \<lparr>Cid = ''Qm1'', Digest = ''a3a3a3a3a3a3a3a3a3a3a3a3a3a3a3a3'', SectorSize = 0\<rparr>"

definition entry_upper :: paramFile where
  "entry_upper = \<lparr>Cid = ''Qm1'', Digest = ''A3A3A3A3A3A3A3A3A3A3A3A3A3A3A3A3'', SectorSize = 0\<rparr>"

definition entry_bad :: paramFile where
  "entry_bad = \<lparr>Cid = ''Qm1'', Digest = ''deadbeefdeadbeefdeadbeefdeadbeef'', SectorSize = 0\<rparr>"

definition world0 :: world where
  "world0 = \<lparr>env = (\<lambda>v. if v = ''FIL_PROOFS_PARAMETER_CACHE'' then ''/p'' else ''''),
             files = Map.empty, checked = {},
             http = (\<lambda>u r. Inr \<lparr>ContentLength = 3, Body = [1, 2, 3], BodyErr = None\<rparr>),
             mkdir_fault = Map.empty, open_fault = Map.empty, read_fault = Map.empty,
             openfile_fault = Map.empty, stat_fault = Map.empty, write_fault = Map.empty,
             remove_fault = Map.empty, trace = []\<rparr>"

definition world_present :: world where
  "world_present = world0\<lparr>files := [''/p/a.vk'' \<mapsto> [1, 2, 3]]\<rparr>"

definition world_offline :: world where
  "world_offline = world0\<lparr>http := (\<lambda>u r. Inl (OsError Other ''connection refused''))\<rparr>"

definition world_denied :: world where
  "world_denied = world0\<lparr>openfile_fault := [''/p/a.vk'' \<mapsto> OsError Other ''permission denied'']\<rparr>"

definition world_gw :: world where
  "world_gw = world0\<lparr>env := (\<lambda>v. if v = ''IPFS_GATEWAY'' then ''http://gw.example/ipfs'' else '''')\<rparr>"

definition entry_params :: paramFile where
  "entry_params = \<lparr>Cid = ''Qm2'', Digest = ''a3a3a3a3a3a3a3a3a3a3a3a3a3a3a3a3'', SectorSize = 2048\<rparr>"

section \<open>Lemmas\<close>

subsection \<open>Hexadecimal encoding\<close>

lemma nib_hi: "unat (drop_bit 4 (v::byte)) < 16"
proof -
  have "unat (drop_bit 4 v) = drop_bit 4 (unat v)"
    by (simp add: unat_drop_bit_eq)
  then have "unat (drop_bit 4 v) = unat v div 2 ^ 4"
    by (simp only: drop_bit_eq_div)
  moreover have "unat v < 256"
    using unsigned_less [of v, where ?'a = nat] by simp
  ultimately show ?thesis by simp
qed

lemma nib_lo: "unat ((v::byte) AND 0x0f) < 16"
proof -
  have "v AND 15 \<le> 15"
    by (rule word_and_le1)
  then have "unat (v AND 15) \<le> unat (15 :: byte)"
    by (simp only: word_le_nat_alt)
  then show ?thesis by simp
qed

lemma length_hex: "length (hex_EncodeToString src) = 2 * length src"
  by (induction src) (simp_all add: hex_EncodeToString_def)

lemma hextable_nth: "n < 16 \<Longrightarrow> hextable ! n \<in> set hextable"
  by (rule nth_mem) (simp add: hextable_def)

lemma set_hex: "set (hex_EncodeToString src) \<subseteq> set hextable"
  by (induction src) (simp_all add: hex_EncodeToString_def hextable_nth nib_hi nib_lo)

lemma hextable_not_upper: "c \<in> set hextable \<Longrightarrow> \<not> is_upper c"
  by (auto simp: hextable_def is_upper_def)

lemma hex_not_upper: "c \<in> set (hex_EncodeToString src) \<Longrightarrow> is_upper c \<Longrightarrow> False"
  using set_hex [of src] hextable_not_upper [of c] by blast

subsection \<open>State after the system calls\<close>

lemma emit_fields [simp]:
  "trace (emit ev w) = trace w @ [ev]" "files (emit ev w) = files w"
  "env (emit ev w) = env w" "checked (emit ev w) = checked w" "http (emit ev w) = http w"
  "openfile_fault (emit ev w) = openfile_fault w" "stat_fault (emit ev w) = stat_fault w"
  "write_fault (emit ev w) = write_fault w" "remove_fault (emit ev w) = remove_fault w"
  "open_fault (emit ev w) = open_fault w" "read_fault (emit ev w) = read_fault w"
  by (simp_all add: emit_def)

lemma create_fields [simp]:
  "trace (create_if_absent p w) = trace w"
  "files (create_if_absent p w) = (files w)(p \<mapsto> (case files w p of None \<Rightarrow> [] | Some d \<Rightarrow> d))"
  "env (create_if_absent p w) = env w" "checked (create_if_absent p w) = checked w"
  "http (create_if_absent p w) = http w"
  "openfile_fault (create_if_absent p w) = openfile_fault w"
  "stat_fault (create_if_absent p w) = stat_fault w"
  "write_fault (create_if_absent p w) = write_fault w"
  "remove_fault (create_if_absent p w) = remove_fault w"
  "open_fault (create_if_absent p w) = open_fault w"
  "read_fault (create_if_absent p w) = read_fault w"
  by (auto simp: create_if_absent_def split: option.splits)

lemma append_fields [simp]:
  "trace (append_file p bs w) = trace w"
  "files (append_file p bs w) = (files w)(p \<mapsto> old_content p w @ bs)"
  by (simp_all add: append_file_def old_content_def)

lemma io_Copy_snd: "snd (io_Copy p resp w) = append_file p (written p resp w) w"
  by (simp add: io_Copy_def written_def split: option.splits prod.splits)

lemma io_Copy_ok: "fst (io_Copy p resp w) = None \<Longrightarrow> written p resp w = Body resp"
  by (simp add: io_Copy_def written_def split: option.splits prod.splits if_splits)

lemma written_take: "\<exists>n. written p resp w = take n (Body resp)"
proof (cases "write_fault w p")
  case None
  then have "written p resp w = take (length (Body resp)) (Body resp)"
    by (simp add: written_def)
  then show ?thesis ..
next
  case (Some a)
  obtain n e where "a = (n, e)" by (cases a)
  with Some have "written p resp w = take n (Body resp)"
    by (simp add: written_def)
  then show ?thesis ..
qed

lemma written_emit [simp]: "written p resp (emit ev w) = written p resp w"
  by (simp add: written_def)

lemma written_create [simp]: "written p resp (create_if_absent q w) = written p resp w"
  by (simp add: written_def)

lemma old_content_create [simp]: "old_content p (create_if_absent p w) = old_content p w"
  by (simp add: old_content_def split: option.splits)

lemma old_content_emit [simp]: "old_content p (emit ev w) = old_content p w"
  by (simp add: old_content_def)

lemma warn_trace:
  assumes "\<And>l m. \<not> P (Log l m)"
  shows "filter P (trace (warn_unless_absent err w)) = filter P (trace w)"
  using assms by (simp add: warn_unless_absent_def)

lemma os_Remove_trace: "trace (snd (os_Remove p w)) = trace w @ [Remove p]"
  by (simp add: os_Remove_def split: option.splits)

lemma os_Remove_ok: "os_Remove p w = (None, w') \<Longrightarrow> files w' p = None"
  by (auto simp: os_Remove_def split: option.splits)

subsection \<open>\<open>checkFile\<close>, \<open>doFetch\<close> and the task, case by case\<close>

lemma checkFile_cases:
  "checkFile L path info w =
     (if env w ''TRUST_PARAMS'' = ''1'' then
        (None, emit (Log Warn ''Assuming parameter files are ok. DO NOT USE IN PRODUCTION'') w)
      else if path \<in> checked w then (None, w)
      else
     (case open_fault w path of
        Some e \<Rightarrow> (Some e, emit (Open path) w)
      | None \<Rightarrow>
         (case files w path of
            None \<Rightarrow> (Some (OsError NotExist (''open '' @ path @ '': no such file or directory'')),
                      emit (Open path) w)
          | Some content \<Rightarrow>
             (case read_fault w path of
                Some e \<Rightarrow> (Some e, emit (Open path) w)
              | None \<Rightarrow>
                 if hex_EncodeToString (take 16 (blake2b_Sum512 L content)) = Digest info
                 then (None, (emit (Log Info (''Parameter file '' @ path @ '' is ok'')) (emit (Open path) w))
                                 \<lparr>checked := insert path (checked w)\<rparr>)
                 else (Some (mismatch path (hex_EncodeToString (take 16 (blake2b_Sum512 L content))) (Digest info)),
                       emit (Open path) w)))))"
  by (simp add: checkFile_def os_Open_def read_all_def emit_def Let_def split: option.splits)

lemma checkFile_trace:
  assumes "\<And>l m. \<not> P (Log l m)" and "\<not> P (Open path)"
  shows "filter P (trace (snd (checkFile L path info w))) = filter P (trace w)"
  using assms by (simp add: checkFile_cases emit_def split: option.splits)

lemma checkFile_files: "files (snd (checkFile L path info w)) = files w"
  by (simp add: checkFile_cases emit_def split: option.splits)

lemma doFetch_cases:
  "doFetch L out info w =
     (let w1 = emit (Log Info (''Fetching '' @ out @ '' from '' @ gw_of w)) w;
          w2 = emit (OpenFile out) (create_if_absent out w1);
          hrange = ''bytes='' @ strconv_FormatInt (int (length (old_content out w))) @ ''-''
      in if openfile_fault w out \<noteq> None then (openfile_fault w out, emit (OpenFile out) w1)
         else if stat_fault w out \<noteq> None then (stat_fault w out, w2)
         else
           (case url_Parse L (gw_of w @ Cid info) of
              Inl err \<Rightarrow> (Some err, w2)
            | Inr url \<Rightarrow>
                if http_NewRequest L url \<noteq> None
                then (http_NewRequest L url, emit (Log Info (''GET '' @ url)) w2)
                else
                  (case http w url hrange of
                     Inl err \<Rightarrow> (Some err, emit (HttpDo url hrange) (emit (Log Info (''GET '' @ url)) w2))
                   | Inr resp \<Rightarrow>
                       io_Copy out resp (emit (HttpDo url hrange) (emit (Log Info (''GET '' @ url)) w2)))))"
proof (cases "openfile_fault w out")
  case (Some e)
  then show ?thesis
    by (simp add: doFetch_def os_OpenFile_def Let_def gw_of_def)
next
  case None
  note of_none = None
  show ?thesis
  proof (cases "stat_fault w out")
    case (Some e)
    with of_none show ?thesis
      by (simp add: doFetch_def os_OpenFile_def stat_Size_def Let_def gw_of_def)
  next
    case None
    with of_none show ?thesis
      by (simp add: doFetch_def os_OpenFile_def stat_Size_def Let_def gw_of_def old_content_def
            split: sum.splits option.splits)
  qed
qed

lemma doFetch_trace:
  assumes "\<And>l m. \<not> P (Log l m)" and "\<not> P (OpenFile out)" and "\<And>u r. \<not> P (HttpDo u r)"
  shows "filter P (trace (snd (doFetch L out info w))) = filter P (trace w)"
  using assms by (simp add: doFetch_cases Let_def io_Copy_snd split: sum.splits)

lemma doFetch_attempts:
  "fetch_attempts (snd (doFetch L out info w)) = fetch_attempts w @ [OpenFile out]"
  by (simp add: fetch_attempts_def doFetch_cases Let_def io_Copy_snd split: sum.splits)

lemma doFetch_requests_le:
  "length (requests (snd (doFetch L out info w))) \<le> length (requests w) + 1"
  by (simp add: requests_def doFetch_cases Let_def io_Copy_snd split: sum.splits)

lemma doFetch_open_failed:
  assumes "openfile_fault w out \<noteq> None"
  shows "fst (doFetch L out info w) = openfile_fault w out"
    and "requests (snd (doFetch L out info w)) = requests w"
    and "files (snd (doFetch L out info w)) = files w"
  using assms by (simp_all add: doFetch_cases Let_def requests_def)

lemma doFetch_request:
  assumes "openfile_fault w out = None" and "stat_fault w out = None"
    and "url_Parse L (gw_of w @ Cid info) = Inr url" and "http_NewRequest L url = None"
  shows "requests (snd (doFetch L out info w)) =
           requests w @ [HttpDo url (''bytes='' @ strconv_FormatInt (int (length (old_content out w))) @ ''-'')]"
  using assms by (simp add: doFetch_cases Let_def requests_def io_Copy_snd split: sum.splits)

lemma doFetch_files:
  assumes "openfile_fault w out = None"
  shows "\<exists>bs. files (snd (doFetch L out info w)) = (files w)(out \<mapsto> old_content out w @ bs)"
proof -
  have "files (snd (doFetch L out info w)) = (files w)(out \<mapsto> old_content out w @ []) \<or>
        (\<exists>url resp. files (snd (doFetch L out info w)) =
           (files w)(out \<mapsto> old_content out w @ written out resp
              (emit (HttpDo url (''bytes='' @ strconv_FormatInt (int (length (old_content out w))) @ ''-''))
                 (emit (Log Info (''GET '' @ url))
                    (emit (OpenFile out) (create_if_absent out
                       (emit (Log Info (''Fetching '' @ out @ '' from '' @ gw_of w)) w)))))))"
    using assms
    by (auto simp: doFetch_cases Let_def io_Copy_snd old_content_def split: sum.splits option.splits)
  then show ?thesis by blast
qed

lemma doFetch_ok:
  assumes "fst (doFetch L out info w) = None"
  shows "\<exists>url resp. url_Parse L (gw_of w @ Cid info) = Inr url \<and>
           http w url (''bytes='' @ strconv_FormatInt (int (length (old_content out w))) @ ''-'') = Inr resp \<and>
           files (snd (doFetch L out info w)) = (files w)(out \<mapsto> old_content out w @ Body resp)"
proof -
  let ?hr = "''bytes='' @ strconv_FormatInt (int (length (old_content out w))) @ ''-''"
  from assms have o: "openfile_fault w out = None" and s: "stat_fault w out = None"
    by (auto simp: doFetch_cases Let_def split: if_splits)
  from assms o s obtain url where u: "url_Parse L (gw_of w @ Cid info) = Inr url"
    by (cases "url_Parse L (gw_of w @ Cid info)") (simp_all add: doFetch_cases Let_def)
  from assms o s u have n: "http_NewRequest L url = None"
    by (simp add: doFetch_cases Let_def split: if_splits)
  from assms o s u n obtain resp where h: "http w url ?hr = Inr resp"
    by (cases "http w url ?hr") (simp_all add: doFetch_cases Let_def)
  let ?w3 = "emit (HttpDo url ?hr) (emit (Log Info (''GET '' @ url))
               (emit (OpenFile out) (create_if_absent out
                  (emit (Log Info (''Fetching '' @ out @ '' from '' @ gw_of w)) w))))"
  have d: "doFetch L out info w = io_Copy out resp ?w3"
    using o s u n h by (simp add: doFetch_cases Let_def)
  from assms have "fst (io_Copy out resp ?w3) = None"
    unfolding d .
  then have "written out resp ?w3 = Body resp"
    by (rule io_Copy_ok)
  then have "written out resp w = Body resp" by simp
  then have "files (snd (doFetch L out info w)) = (files w)(out \<mapsto> old_content out w @ Body resp)"
    unfolding d by (simp add: io_Copy_snd)
  with u h show ?thesis by blast
qed

lemma fetch_locked_cases:
  "fetch_locked L path info (ft, w) =
     (case doFetch L path info w of
        (Some err, w1) \<Rightarrow>
          (record_err (Wrap (''fetching file '' @ path @ '' failed'') err) ft, emit Unlock w1)
      | (None, w1) \<Rightarrow>
          (case checkFile L path info w1 of
             (None, w2) \<Rightarrow> (ft, emit Unlock w2)
           | (Some err, w2) \<Rightarrow>
               (case os_Remove path w2 of
                  (None, w3) \<Rightarrow>
                    (record_err (Wrap (''checking file '' @ path @ '' failed'') err) ft,
                     emit Unlock w3)
                | (Some err', w3) \<Rightarrow>
                    (record_err (Wrap (''remove file '' @ path @ '' failed'') err')
                       (record_err (Wrap (''checking file '' @ path @ '' failed'') err) ft),
                     emit Unlock w3))))"
  by (simp add: fetch_locked_def Let_def split: prod.splits option.splits)

lemma maybeFetch_precheck_failed:
  assumes "checkFile L (filepath_Join L (getParamDir w) name) info w = (Some e, w1)"
  shows "maybeFetch L name info (ft, w) =
           fetch_locked L (filepath_Join L (getParamDir w) name) info
             (ft, emit Lock (if os_IsNotExist (Some e) then w1
                             else emit (Log Warn (error_string e)) w1))"
  using assms by (simp add: maybeFetch_def warn_unless_absent_def)

lemma fold_loop_body:
  "fold (loop_body L storageSize) params st =
   fold (\<lambda>(name, info). maybeFetch L name info)
     (filter (\<lambda>(name, info). \<not> (storageSize \<noteq> SectorSize info \<and> strings_HasSuffix name ''.params'')) params) st"
proof (induction params arbitrary: st)
  case Nil
  show ?case by simp
next
  case (Cons entry params)
  obtain name info where e: "entry = (name, info)" by (cases entry)
  show ?case
  proof (cases "storageSize \<noteq> SectorSize info \<and> strings_HasSuffix name ''.params''")
    case True
    with Cons e show ?thesis by (simp add: loop_body_def)
  next
    case False
    with Cons e show ?thesis by (auto simp: loop_body_def)
  qed
qed

lemma pair_of_fst: "fst x = a \<Longrightarrow> x = (a, snd x)"
  by (cases x) simp

subsection \<open>Evaluation at the concrete inputs\<close>

lemma hex_a3: "hex_EncodeToString (replicate 16 0xa3) = ''a3a3a3a3a3a3a3a3a3a3a3a3a3a3a3a3''"
  by code_simp

lemma sum3: "take 16 (blake2b_Sum512 lib0 [1, 2, 3]) = replicate 16 0xa3"
  by (simp add: lib0_def)

section \<open>The claims\<close>

text \<open>
  C1. With the trust bypass off and the path not in the cache, \<open>checkFile\<close> returns nil
  exactly when the file can be opened and read to its end and the lower-case hexadecimal
  encoding of the first 16 bytes of the 64-byte digest of its whole content is equal,
  character by character, to the entry's \<open>Digest\<close>.
\<close>

theorem checkFile_ok_iff_digest_matches:
  assumes "env w ''TRUST_PARAMS'' \<noteq> ''1''" and "path \<notin> checked w"
    and "\<forall>c. length (blake2b_Sum512 L c) = 64"
  shows "fst (checkFile L path info w) = None \<longleftrightarrow>
         (\<exists>content digest16.
             open_fault w path = None \<and> files w path = Some content \<and> read_fault w path = None \<and>
             digest16 = take 16 (blake2b_Sum512 L content) \<and> length digest16 = 16 \<and>
             hex_EncodeToString digest16 = Digest info)"
  using assms by (simp add: checkFile_cases mismatch_def split: option.splits)


theorem checkFile_ok_iff_digest_matches_witness:
  "env world_present ''TRUST_PARAMS'' \<noteq> ''1'' \<and> ''/p/a.vk'' \<notin> checked world_present \<and>
   (\<forall>c. length (blake2b_Sum512 lib0 c) = 64) \<and>
   fst (checkFile lib0 ''/p/a.vk'' entry_ok world_present) = None"
proof -
  have h1: "env world_present ''TRUST_PARAMS'' \<noteq> ''1''"
    by (simp add: world_present_def world0_def)
  have h2: "''/p/a.vk'' \<notin> checked world_present"
    by (simp add: world_present_def world0_def)
  have h3: "\<forall>c. length (blake2b_Sum512 lib0 c) = 64"
    by (simp add: lib0_def)
  have "\<exists>content digest16.
          open_fault world_present ''/p/a.vk'' = None \<and>
          files world_present ''/p/a.vk'' = Some content \<and>
          read_fault world_present ''/p/a.vk'' = None \<and>
          digest16 = take 16 (blake2b_Sum512 lib0 content) \<and> length digest16 = 16 \<and>
          hex_EncodeToString digest16 = Digest entry_ok"
    by (intro exI [of _ "[1, 2, 3]"] exI [of _ "replicate 16 0xa3"])
      (simp add: world_present_def world0_def entry_ok_def sum3 hex_a3)
  then have "fst (checkFile lib0 ''/p/a.vk'' entry_ok world_present) = None"
    by (rule checkFile_ok_iff_digest_matches [OF h1 h2 h3, THEN iffD2])
  with h1 h2 h3 show ?thesis by blast
qed

text \<open>
  C2. In the loop of \<open>GetParams\<close>, an entry whose name ends in \<open>.params\<close> and whose
  \<open>SectorSize\<close> differs from \<open>storageSize\<close> leaves the whole state as it was: the
  errors, the files, the cache and the trace of effects, so nothing is verified, fetched
  or reported for it. An entry whose name lacks the suffix is handed to
  \<open>maybeFetchAsync\<close> whatever its size. The loop over a manifest is the run of the
  tasks of the entries that are not skipped.
\<close>

theorem GetParams_skips_other_size_params:
  "(strings_HasSuffix name ''.params'' \<and> SectorSize info \<noteq> storageSize \<longrightarrow>
      loop_body L storageSize (name, info) st = st) \<and>
   (\<not> strings_HasSuffix name ''.params'' \<longrightarrow>
      loop_body L storageSize (name, info) st = maybeFetch L name info st) \<and>
   fold (loop_body L storageSize) params st =
     fold (\<lambda>(name, info). maybeFetch L name info)
       (filter (\<lambda>(name, info). \<not> (storageSize \<noteq> SectorSize info \<and> strings_HasSuffix name ''.params''))
          params) st"
  using fold_loop_body [of L storageSize params st] by (auto simp: loop_body_def)


theorem GetParams_skips_other_size_params_witness:
  "loop_body lib0 4096 (''b.params'', entry_params) (\<lparr>errs = []\<rparr>, world0) = (\<lparr>errs = []\<rparr>, world0) \<and>
   loop_body lib0 4096 (''a.vk'', entry_ok) (\<lparr>errs = []\<rparr>, world0) =
     maybeFetch lib0 ''a.vk'' entry_ok (\<lparr>errs = []\<rparr>, world0)"
proof -
  have h1: "strings_HasSuffix ''b.params'' ''.params'' \<and> SectorSize entry_params \<noteq> 4096"
    by (simp add: strings_HasSuffix_def entry_params_def)
  have h2: "\<not> strings_HasSuffix ''a.vk'' ''.params''"
    by (simp add: strings_HasSuffix_def)
  from h1 GetParams_skips_other_size_params
         [of "''b.params''" entry_params 4096 lib0 "(\<lparr>errs = []\<rparr>, world0)" "[]"]
  have "loop_body lib0 4096 (''b.params'', entry_params) (\<lparr>errs = []\<rparr>, world0) = (\<lparr>errs = []\<rparr>, world0)"
    by blast
  moreover from h2 GetParams_skips_other_size_params
         [of "''a.vk''" entry_ok 4096 lib0 "(\<lparr>errs = []\<rparr>, world0)" "[]"]
  have "loop_body lib0 4096 (''a.vk'', entry_ok) (\<lparr>errs = []\<rparr>, world0) =
     maybeFetch lib0 ''a.vk'' entry_ok (\<lparr>errs = []\<rparr>, world0)"
    by blast
  ultimately show ?thesis by blast
qed

text \<open>
  C3. When the check of the local file returns nil (through the trust bypass, the cache or
  a matching digest), the task ends there: the errors of \<open>fetch\<close> are as before, no
  request has been sent, \<open>fetchLk\<close> has not been acquired, \<open>doFetch\<close> has not been
  called and no file has changed.
\<close>

theorem maybeFetch_verified_no_fetch:
  assumes "checkFile L (filepath_Join L (getParamDir w) name) info w = (None, w1)"
  shows "maybeFetch L name info (ft, w) = (ft, w1) \<and>
         requests w1 = requests w \<and> gate_acquisitions w1 = gate_acquisitions w \<and>
         fetch_attempts w1 = fetch_attempts w \<and> files w1 = files w"
proof -
  let ?path = "filepath_Join L (getParamDir w) name"
  have w1: "w1 = snd (checkFile L ?path info w)"
    using assms by simp
  have "maybeFetch L name info (ft, w) = (ft, w1)"
    using assms by (simp add: maybeFetch_def warn_unless_absent_def)
  moreover have "requests w1 = requests w" "gate_acquisitions w1 = gate_acquisitions w"
    "fetch_attempts w1 = fetch_attempts w"
    unfolding w1 requests_def gate_acquisitions_def fetch_attempts_def
    by (rule checkFile_trace; simp)+
  moreover have "files w1 = files w"
    unfolding w1 by (rule checkFile_files)
  ultimately show ?thesis by simp
qed


theorem maybeFetch_verified_no_fetch_witness:
  "errs (fst (maybeFetch lib0 ''a.vk'' entry_ok (\<lparr>errs = []\<rparr>, world_present))) = [] \<and>
   requests (snd (maybeFetch lib0 ''a.vk'' entry_ok (\<lparr>errs = []\<rparr>, world_present))) = [] \<and>
   gate_acquisitions (snd (maybeFetch lib0 ''a.vk'' entry_ok (\<lparr>errs = []\<rparr>, world_present))) = []"
proof -
  let ?w1 = "snd (checkFile lib0 (filepath_Join lib0 (getParamDir world_present) ''a.vk'')
                entry_ok world_present)"
  have h: "checkFile lib0 (filepath_Join lib0 (getParamDir world_present) ''a.vk'')
             entry_ok world_present = (None, ?w1)"
    by (rule pair_of_fst) code_simp
  have "requests world_present = []" and "gate_acquisitions world_present = []"
    by (simp_all add: requests_def gate_acquisitions_def world_present_def world0_def)
  with maybeFetch_verified_no_fetch [OF h, of "\<lparr>errs = []\<rparr>"] show ?thesis
    by simp
qed

text \<open>
  C4. When the check before the download fails, the download succeeds and the check after
  it fails again with error \<open>e\<close>, the task appends the error
  "checking file <path> failed" wrapping \<open>e\<close>, then calls \<open>os.Remove\<close> on the path;
  a failing removal appends "remove file <path> failed" for the same entry. The entry so
  adds one error or two, and after a successful removal the file is gone.
\<close>

theorem maybeFetch_recheck_failed_errors:
  assumes "path = filepath_Join L (getParamDir w) name"
    and "checkFile L path info w = (Some e0, w1)"
    and "doFetch L path info (emit Lock (warn_unless_absent (Some e0) w1)) = (None, w2)"
    and "checkFile L path info w2 = (Some e, w3)"
    and "os_Remove path w3 = (r, w4)"
    and "(ft', w') = maybeFetch L name info (ft, w)"
  shows "errs ft' = errs ft @ Wrap (''checking file '' @ path @ '' failed'') e #
            (case r of None \<Rightarrow> [] | Some e' \<Rightarrow> [Wrap (''remove file '' @ path @ '' failed'') e']) \<and>
         w' = emit Unlock w4 \<and>
         removals w' = removals w @ [Remove path] \<and>
         (r = None \<longrightarrow> files w' path = None) \<and>
         (length (errs ft') = length (errs ft) + 1 \<or> length (errs ft') = length (errs ft) + 2)"
proof -
  let ?w2 = "emit Lock (warn_unless_absent (Some e0) w1)"
  have st: "(ft', w') =
      (ft\<lparr>errs := errs ft @ Wrap (''checking file '' @ path @ '' failed'') e #
          (case r of None \<Rightarrow> [] | Some e' \<Rightarrow> [Wrap (''remove file '' @ path @ '' failed'') e'])\<rparr>,
       emit Unlock w4)"
    using assms by (cases r) (simp_all add: maybeFetch_def fetch_locked_cases record_err_def Let_def)
  have w1: "w1 = snd (checkFile L path info w)" and w2: "w2 = snd (doFetch L path info ?w2)"
    and w3: "w3 = snd (checkFile L path info w2)" and w4: "w4 = snd (os_Remove path w3)"
    using assms by simp_all
  have "removals w1 = removals w"
    unfolding w1 removals_def by (rule checkFile_trace; simp)
  moreover have "removals ?w2 = removals w1"
    by (simp add: removals_def warn_trace)
  moreover have "removals w2 = removals ?w2"
    unfolding w2 removals_def by (rule doFetch_trace; simp)
  moreover have "removals w3 = removals w2"
    unfolding w3 removals_def by (rule checkFile_trace; simp)
  moreover have "removals w4 = removals w3 @ [Remove path]"
    unfolding w4 removals_def by (simp add: os_Remove_trace)
  moreover have "files w4 path = None" if "r = None"
    using that assms(5) os_Remove_ok by simp
  ultimately show ?thesis
    using st by (cases r) (simp_all add: removals_def)
qed


theorem maybeFetch_recheck_failed_errors_witness:
  "errs (fst (maybeFetch lib0 ''a.vk'' entry_bad (\<lparr>errs = []\<rparr>, world0))) =
     [Wrap ''checking file /p/a.vk failed'' (mismatch ''/p/a.vk'' ''a3a3a3a3a3a3a3a3a3a3a3a3a3a3a3a3'' ''deadbeefdeadbeefdeadbeefdeadbeef'')] \<and>
   files (snd (maybeFetch lib0 ''a.vk'' entry_bad (\<lparr>errs = []\<rparr>, world0))) ''/p/a.vk'' = None"
proof -
  let ?absent = "OsError NotExist ''open /p/a.vk: no such file or directory''"
  let ?e = "mismatch ''/p/a.vk'' ''a3a3a3a3a3a3a3a3a3a3a3a3a3a3a3a3'' ''deadbeefdeadbeefdeadbeefdeadbeef''"
  let ?w1 = "snd (checkFile lib0 ''/p/a.vk'' entry_bad world0)"
  let ?w2 = "snd (doFetch lib0 ''/p/a.vk'' entry_bad (emit Lock (warn_unless_absent (Some ?absent) ?w1)))"
  let ?w3 = "snd (checkFile lib0 ''/p/a.vk'' entry_bad ?w2)"
  let ?w4 = "snd (os_Remove ''/p/a.vk'' ?w3)"
  let ?m = "maybeFetch lib0 ''a.vk'' entry_bad (\<lparr>errs = []\<rparr>, world0)"
  have p: "''/p/a.vk'' = filepath_Join lib0 (getParamDir world0) ''a.vk''"
    by code_simp
  have h1: "checkFile lib0 ''/p/a.vk'' entry_bad world0 = (Some ?absent, ?w1)"
    by (rule pair_of_fst) code_simp
  have h2: "doFetch lib0 ''/p/a.vk'' entry_bad (emit Lock (warn_unless_absent (Some ?absent) ?w1)) = (None, ?w2)"
    by (rule pair_of_fst) code_simp
  have h3: "checkFile lib0 ''/p/a.vk'' entry_bad ?w2 = (Some ?e, ?w3)"
    by (rule pair_of_fst) code_simp
  have h4: "os_Remove ''/p/a.vk'' ?w3 = (None, ?w4)"
    by (rule pair_of_fst) code_simp
  have h5: "(fst ?m, snd ?m) = ?m"
    by simp
  from maybeFetch_recheck_failed_errors [OF p h1 h2 h3 h4 h5]
  have "errs (fst ?m) = errs \<lparr>errs = []\<rparr> @
          Wrap (''checking file '' @ ''/p/a.vk'' @ '' failed'') ?e #
          (case None of None \<Rightarrow> [] | Some e' \<Rightarrow> [Wrap (''remove file '' @ ''/p/a.vk'' @ '' failed'') e'])"
    and "files (snd ?m) ''/p/a.vk'' = None"
    by blast+
  then show ?thesis
    by simp
qed

text \<open>
  C5. When the check before the download fails and \<open>doFetch\<close> returns the error \<open>e\<close>,
  the task appends the one error "fetching file <path> failed" wrapping \<open>e\<close> and
  returns after releasing \<open>fetchLk\<close>: \<open>doFetch\<close> has been called once, at most one
  request has been sent, no file has been opened for hashing after the first check, and
  nothing has been removed.
\<close>

theorem maybeFetch_fetch_failed_single_error:
  assumes "path = filepath_Join L (getParamDir w) name"
    and "checkFile L path info w = (Some e0, w1)"
    and "doFetch L path info (emit Lock (warn_unless_absent (Some e0) w1)) = (Some e, w2)"
    and "(ft', w') = maybeFetch L name info (ft, w)"
  shows "errs ft' = errs ft @ [Wrap (''fetching file '' @ path @ '' failed'') e] \<and>
         w' = emit Unlock w2 \<and>
         fetch_attempts w' = fetch_attempts w @ [OpenFile path] \<and>
         length (requests w') \<le> length (requests w) + 1 \<and>
         verification_reads w' = verification_reads w1 \<and>
         removals w' = removals w \<and>
         files w' = files w2"
proof -
  let ?w2 = "emit Lock (warn_unless_absent (Some e0) w1)"
  have st: "(ft', w') = (record_err (Wrap (''fetching file '' @ path @ '' failed'') e) ft, emit Unlock w2)"
    using assms by (simp add: maybeFetch_def fetch_locked_cases)
  have w1: "w1 = snd (checkFile L path info w)" and w2: "w2 = snd (doFetch L path info ?w2)"
    using assms by simp_all
  have "fetch_attempts w1 = fetch_attempts w" "requests w1 = requests w" "removals w1 = removals w"
    unfolding w1 fetch_attempts_def requests_def removals_def
    by (rule checkFile_trace; simp)+
  moreover have "fetch_attempts w2 = fetch_attempts ?w2 @ [OpenFile path]"
    unfolding w2 by (rule doFetch_attempts)
  moreover have "length (requests w2) \<le> length (requests ?w2) + 1"
    unfolding w2 by (rule doFetch_requests_le)
  moreover have "verification_reads w2 = verification_reads ?w2" "removals w2 = removals ?w2"
    unfolding w2 verification_reads_def removals_def
    by (rule doFetch_trace; simp)+
  moreover have "fetch_attempts ?w2 = fetch_attempts w1" "requests ?w2 = requests w1"
    "verification_reads ?w2 = verification_reads w1" "removals ?w2 = removals w1"
    unfolding fetch_attempts_def requests_def verification_reads_def removals_def
    by (simp_all add: warn_trace)
  ultimately show ?thesis
    using st
    by (simp add: record_err_def fetch_attempts_def requests_def verification_reads_def removals_def)
qed


theorem maybeFetch_fetch_failed_single_error_witness:
  "errs (fst (maybeFetch lib0 ''a.vk'' entry_ok (\<lparr>errs = []\<rparr>, world_offline))) =
     [Wrap ''fetching file /p/a.vk failed'' (OsError Other ''connection refused'')] \<and>
   fetch_attempts (snd (maybeFetch lib0 ''a.vk'' entry_ok (\<lparr>errs = []\<rparr>, world_offline))) =
     [OpenFile ''/p/a.vk''] \<and>
   removals (snd (maybeFetch lib0 ''a.vk'' entry_ok (\<lparr>errs = []\<rparr>, world_offline))) = []"
proof -
  let ?absent = "OsError NotExist ''open /p/a.vk: no such file or directory''"
  let ?w1 = "snd (checkFile lib0 ''/p/a.vk'' entry_ok world_offline)"
  let ?w2 = "snd (doFetch lib0 ''/p/a.vk'' entry_ok (emit Lock (warn_unless_absent (Some ?absent) ?w1)))"
  let ?m = "maybeFetch lib0 ''a.vk'' entry_ok (\<lparr>errs = []\<rparr>, world_offline)"
  have p: "''/p/a.vk'' = filepath_Join lib0 (getParamDir world_offline) ''a.vk''"
    by code_simp
  have h1: "checkFile lib0 ''/p/a.vk'' entry_ok world_offline = (Some ?absent, ?w1)"
    by (rule pair_of_fst) code_simp
  have h2: "doFetch lib0 ''/p/a.vk'' entry_ok (emit Lock (warn_unless_absent (Some ?absent) ?w1)) =
              (Some (OsError Other ''connection refused''), ?w2)"
    by (rule pair_of_fst) code_simp
  have h3: "(fst ?m, snd ?m) = ?m"
    by simp
  have z: "fetch_attempts world_offline = []" "removals world_offline = []"
    by (simp_all add: fetch_attempts_def removals_def world_offline_def world0_def)
  from maybeFetch_fetch_failed_single_error [OF p h1 h2 h3]
  have "errs (fst ?m) = errs \<lparr>errs = []\<rparr> @
          [Wrap (''fetching file '' @ ''/p/a.vk'' @ '' failed'') (OsError Other ''connection refused'')]"
    and "fetch_attempts (snd ?m) = fetch_attempts world_offline @ [OpenFile ''/p/a.vk'']"
    and "removals (snd ?m) = removals world_offline"
    by blast+
  with z show ?thesis
    by simp
qed

text \<open>
  C6. When the check before the download fails with error \<open>e\<close>, the task goes on to
  acquire \<open>fetchLk\<close> and to run the download phase with the errors of \<open>fetch\<close>
  untouched; the only trace of \<open>e\<close> is a warning in the log, written unless \<open>e\<close> says
  that the file does not exist. \<open>doFetch\<close> is then called.
\<close>

theorem maybeFetch_precheck_failure_swallowed:
  assumes "path = filepath_Join L (getParamDir w) name"
    and "checkFile L path info w = (Some e, w1)"
  shows "maybeFetch L name info (ft, w) =
           fetch_locked L path info
             (ft, emit Lock (if os_IsNotExist (Some e) then w1
                             else emit (Log Warn (error_string e)) w1)) \<and>
         (\<exists>rest. fetch_attempts (snd (maybeFetch L name info (ft, w))) =
            fetch_attempts w @ OpenFile path # rest)"
proof -
  let ?w2 = "emit Lock (if os_IsNotExist (Some e) then w1 else emit (Log Warn (error_string e)) w1)"
  have eq: "maybeFetch L name info (ft, w) = fetch_locked L path info (ft, ?w2)"
    using assms maybeFetch_precheck_failed by simp
  have w1: "w1 = snd (checkFile L path info w)"
    using assms by simp
  have a1: "fetch_attempts w1 = fetch_attempts w"
    unfolding w1 fetch_attempts_def by (rule checkFile_trace; simp)
  have a2: "fetch_attempts ?w2 = fetch_attempts w"
    using a1 by (simp add: fetch_attempts_def)
  obtain r w3 where d: "doFetch L path info ?w2 = (r, w3)"
    by (cases "doFetch L path info ?w2")
  have a3: "fetch_attempts w3 = fetch_attempts w @ [OpenFile path]"
    using doFetch_attempts [of L path info ?w2] d a2 by simp
  have "\<exists>rest. fetch_attempts (snd (fetch_locked L path info (ft, ?w2))) =
          fetch_attempts w @ OpenFile path # rest"
  proof (cases r)
    case (Some err)
    with d a3 show ?thesis
      by (simp add: fetch_locked_cases fetch_attempts_def)
  next
    case None
    obtain r' w4 where c: "checkFile L path info w3 = (r', w4)"
      by (cases "checkFile L path info w3")
    have a4: "fetch_attempts w4 = fetch_attempts w3"
      using checkFile_trace [of is_openfile path L info w3] c by (simp add: fetch_attempts_def)
    show ?thesis
    proof (cases r')
      case None
      with \<open>r = None\<close> d c a3 a4 show ?thesis
        by (simp add: fetch_locked_cases fetch_attempts_def)
    next
      case (Some err)
      obtain r'' w5 where rm: "os_Remove path w4 = (r'', w5)"
        by (cases "os_Remove path w4")
      have "fetch_attempts w5 = fetch_attempts w4"
        using os_Remove_trace [of path w4] rm by (simp add: fetch_attempts_def)
      with Some \<open>r = None\<close> d c a3 a4 rm show ?thesis
        by (cases r'') (simp_all add: fetch_locked_cases fetch_attempts_def)
    qed
  qed
  with eq show ?thesis by simp
qed


theorem maybeFetch_precheck_failure_swallowed_witness:
  "maybeFetch lib0 ''a.vk'' entry_bad (\<lparr>errs = []\<rparr>, world_present) =
     fetch_locked lib0 ''/p/a.vk'' entry_bad
       (\<lparr>errs = []\<rparr>,
        emit Lock (emit (Log Warn (error_string (mismatch ''/p/a.vk'' ''a3a3a3a3a3a3a3a3a3a3a3a3a3a3a3a3'' ''deadbeefdeadbeefdeadbeefdeadbeef'')))
          (snd (checkFile lib0 ''/p/a.vk'' entry_bad world_present))))"
proof -
  let ?e = "mismatch ''/p/a.vk'' ''a3a3a3a3a3a3a3a3a3a3a3a3a3a3a3a3'' ''deadbeefdeadbeefdeadbeefdeadbeef''"
  let ?w1 = "snd (checkFile lib0 ''/p/a.vk'' entry_bad world_present)"
  have p: "''/p/a.vk'' = filepath_Join lib0 (getParamDir world_present) ''a.vk''"
    by code_simp
  have h1: "checkFile lib0 ''/p/a.vk'' entry_bad world_present = (Some ?e, ?w1)"
    by (rule pair_of_fst) code_simp
  have "\<not> os_IsNotExist (Some ?e)"
    by (simp add: mismatch_def)
  with maybeFetch_precheck_failure_swallowed [OF p h1, of "\<lparr>errs = []\<rparr>"] show ?thesis
    by simp
qed

text \<open>
  C7, as the code has it. Every call of \<open>doFetch\<close> opens the file once in append mode and
  sends at most one request. When that open fails, the call returns its error, sends no
  request and leaves the files alone. When the open, the size query, the parsing of the
  address and the construction of the request succeed, exactly one GET is sent, for the
  gateway address directly followed by the \<open>Cid\<close> (no separator is added), with the
  header \<open>Range: bytes=S-\<close> where \<open>S\<close> is the size the file had. Whatever is written
  goes after the content the file had, which stays as it was; a call that returns nil
  leaves the file holding that content followed by the whole response body.
\<close>

theorem doFetch_appends_range_request:
  assumes "(r, w') = doFetch L out info w"
    and "hrange = ''bytes='' @ strconv_FormatInt (int (length (old_content out w))) @ ''-''"
  shows "fetch_attempts w' = fetch_attempts w @ [OpenFile out] \<and>
         length (requests w') \<le> length (requests w) + 1 \<and>
         (openfile_fault w out \<noteq> None \<longrightarrow>
            r = openfile_fault w out \<and> requests w' = requests w \<and> files w' = files w) \<and>
         (openfile_fault w out = None \<and> stat_fault w out = None \<and>
          url_Parse L (gw_of w @ Cid info) = Inr url \<and> http_NewRequest L url = None \<longrightarrow>
            requests w' = requests w @ [HttpDo url hrange]) \<and>
         (openfile_fault w out = None \<longrightarrow>
            (\<exists>bs. files w' = (files w)(out \<mapsto> old_content out w @ bs))) \<and>
         (r = None \<longrightarrow>
            (\<exists>url resp. url_Parse L (gw_of w @ Cid info) = Inr url \<and> http w url hrange = Inr resp \<and>
               files w' = (files w)(out \<mapsto> old_content out w @ Body resp)))"
proof -
  have r: "r = fst (doFetch L out info w)" and w': "w' = snd (doFetch L out info w)"
    using assms(1) [symmetric] by simp_all
  have "fetch_attempts w' = fetch_attempts w @ [OpenFile out]"
    unfolding w' by (rule doFetch_attempts)
  moreover have "length (requests w') \<le> length (requests w) + 1"
    unfolding w' by (rule doFetch_requests_le)
  moreover have "r = openfile_fault w out \<and> requests w' = requests w \<and> files w' = files w"
    if "openfile_fault w out \<noteq> None"
    unfolding r w' using doFetch_open_failed [OF that] by simp
  moreover have "requests w' = requests w @ [HttpDo url hrange]"
    if "openfile_fault w out = None \<and> stat_fault w out = None \<and>
        url_Parse L (gw_of w @ Cid info) = Inr url \<and> http_NewRequest L url = None"
    unfolding w' assms(2) using that by (simp add: doFetch_request)
  moreover have "\<exists>bs. files w' = (files w)(out \<mapsto> old_content out w @ bs)"
    if "openfile_fault w out = None"
    unfolding w' using that by (rule doFetch_files)
  moreover have "\<exists>url resp. url_Parse L (gw_of w @ Cid info) = Inr url \<and> http w url hrange = Inr resp \<and>
               files w' = (files w)(out \<mapsto> old_content out w @ Body resp)"
    if "r = None"
  proof -
    from that r have "fst (doFetch L out info w) = None" by simp
    from doFetch_ok [OF this] show ?thesis
      unfolding w' assms(2) .
  qed
  ultimately show ?thesis by blast
qed


theorem doFetch_appends_range_request_witness:
  "requests (snd (doFetch lib0 ''/p/a.vk'' entry_ok world_present)) =
     [HttpDo ''https://proofs.filecoin.io/ipfs/Qm1'' ''bytes=3-''] \<and>
   files (snd (doFetch lib0 ''/p/a.vk'' entry_ok world_present)) ''/p/a.vk'' = Some [1, 2, 3, 1, 2, 3]"
proof -
  let ?d = "doFetch lib0 ''/p/a.vk'' entry_ok world_present"
  let ?url = "''https://proofs.filecoin.io/ipfs/Qm1''"
  have h1: "(fst ?d, snd ?d) = ?d"
    by simp
  have h2: "''bytes=3-'' =
      ''bytes='' @ strconv_FormatInt (int (length (old_content ''/p/a.vk'' world_present))) @ ''-''"
    by code_simp
  have h3: "openfile_fault world_present ''/p/a.vk'' = None \<and> stat_fault world_present ''/p/a.vk'' = None \<and>
      url_Parse lib0 (gw_of world_present @ Cid entry_ok) = Inr ?url \<and>
      http_NewRequest lib0 ?url = None"
    by code_simp
  have h4: "fst ?d = None"
    by code_simp
  have h5: "url_Parse lib0 (gw_of world_present @ Cid entry_ok) = Inr u \<Longrightarrow> u = ?url" for u
    using h3 by simp
  have h6: "http world_present ?url ''bytes=3-'' = Inr resp \<Longrightarrow> Body resp = [1, 2, 3]" for resp
    by (auto simp: world_present_def world0_def)
  have h7: "requests world_present = []" "old_content ''/p/a.vk'' world_present = [1, 2, 3]"
    by (simp_all add: requests_def old_content_def world_present_def world0_def)
  from doFetch_appends_range_request [OF h1 h2, of ?url] h3 h4
  have r: "requests (snd ?d) = requests world_present @ [HttpDo ?url ''bytes=3-'']"
    and f: "\<exists>url resp. url_Parse lib0 (gw_of world_present @ Cid entry_ok) = Inr url \<and>
              http world_present url ''bytes=3-'' = Inr resp \<and>
              files (snd ?d) = (files world_present)(''/p/a.vk'' \<mapsto> old_content ''/p/a.vk'' world_present @ Body resp)"
    by blast+
  from f h5 h6 h7 have "files (snd ?d) ''/p/a.vk'' = Some [1, 2, 3, 1, 2, 3]"
    by auto
  with r h7 show ?thesis by simp
qed

text \<open>
  C7 as it is written fails twice. A call whose file cannot be opened for writing sends
  no request at all; and with the gateway address \<open>http://gw.example/ipfs\<close> the request
  goes to \<open>http://gw.example/ipfsQm1\<close>, the address and the \<open>Cid\<close> put together with
  no slash between them.
\<close>

theorem doFetch_request_counterexample:
  "requests (snd (doFetch lib0 ''/p/a.vk'' entry_ok world_denied)) = [] \<and>
   requests (snd (doFetch lib0 ''/p/a.vk'' entry_ok world_gw)) =
     [HttpDo ''http://gw.example/ipfsQm1'' ''bytes=0-''] \<and>
   ''http://gw.example/ipfsQm1'' \<noteq> ''http://gw.example/ipfs'' @ ''/'' @ Cid entry_ok"
  by code_simp

text \<open>
  C9. \<open>checkFile\<close> changes the cache in one way only: on a digest match it inserts the
  path it checked. When it returns an error (a mismatch or a failure to open or read),
  the cache is what it was.
\<close>

theorem checkFile_cache_only_on_match:
  assumes "checkFile L path info w = (r, w')"
  shows "(r \<noteq> None \<longrightarrow> checked w' = checked w) \<and>
         (checked w' = checked w \<or>
          (checked w' = insert path (checked w) \<and> r = None \<and>
           (\<exists>content. files w path = Some content \<and>
              hex_EncodeToString (take 16 (blake2b_Sum512 L content)) = Digest info)))"
  using assms by (auto simp: checkFile_cases emit_def split: option.splits if_splits)


theorem checkFile_cache_only_on_match_witness:
  "fst (checkFile lib0 ''/p/a.vk'' entry_upper world_present) \<noteq> None \<and>
   checked (snd (checkFile lib0 ''/p/a.vk'' entry_upper world_present)) = checked world_present"
proof -
  let ?c = "checkFile lib0 ''/p/a.vk'' entry_upper world_present"
  have h1: "?c = (fst ?c, snd ?c)"
    by simp
  have h2: "fst ?c \<noteq> None"
    by code_simp
  with checkFile_cache_only_on_match [OF h1] show ?thesis
    by blast
qed

text \<open>
  C10. When the file is hashed (trust bypass off, path not cached, file opened and read),
  the string compared with \<open>Digest\<close> has 32 characters, all of them among
  \<open>0123456789abcdef\<close>. So for an entry whose \<open>Digest\<close> has another length or holds an
  upper-case letter, \<open>checkFile\<close> returns the checksum-mismatch error.
\<close>

theorem checkFile_sum_lowercase_hex:
  assumes "env w ''TRUST_PARAMS'' \<noteq> ''1''" and "path \<notin> checked w"
    and "open_fault w path = None" and "files w path = Some content"
    and "read_fault w path = None"
    and "length (blake2b_Sum512 L content) = 64"
    and "strSum = hex_EncodeToString (take 16 (blake2b_Sum512 L content))"
  shows "length strSum = 32 \<and> (\<forall>c \<in> set strSum. c \<in> set ''0123456789abcdef'') \<and>
         (length (Digest info) \<noteq> 32 \<or> (\<exists>c \<in> set (Digest info). is_upper c) \<longrightarrow>
            fst (checkFile L path info w) = Some (mismatch path strSum (Digest info)))"
proof -
  have len: "length strSum = 32"
    using assms(6,7) by (simp add: length_hex)
  have chars: "\<forall>c \<in> set strSum. c \<in> set ''0123456789abcdef''"
    using set_hex [of "take 16 (blake2b_Sum512 L content)"]
    unfolding assms(7) hextable_def by blast
  have "strSum \<noteq> Digest info"
    if h: "length (Digest info) \<noteq> 32 \<or> (\<exists>c \<in> set (Digest info). is_upper c)"
  proof
    assume eq: "strSum = Digest info"
    from h show False
    proof
      assume "length (Digest info) \<noteq> 32"
      with len eq show False by simp
    next
      assume "\<exists>c \<in> set (Digest info). is_upper c"
      then obtain c where "c \<in> set (Digest info)" and "is_upper c" by blast
      then have "c \<in> set (hex_EncodeToString (take 16 (blake2b_Sum512 L content)))"
        using eq assms(7) by simp
      then show False using \<open>is_upper c\<close> by (rule hex_not_upper)
    qed
  qed
  then have "fst (checkFile L path info w) = Some (mismatch path strSum (Digest info))"
    if "length (Digest info) \<noteq> 32 \<or> (\<exists>c \<in> set (Digest info). is_upper c)"
    using that assms by (simp add: checkFile_cases)
  with len chars show ?thesis by blast
qed


theorem checkFile_sum_lowercase_hex_witness:
  "(\<exists>c \<in> set (Digest entry_upper). is_upper c) \<and>
   fst (checkFile lib0 ''/p/a.vk'' entry_upper world_present) =
     Some (mismatch ''/p/a.vk'' ''a3a3a3a3a3a3a3a3a3a3a3a3a3a3a3a3'' ''A3A3A3A3A3A3A3A3A3A3A3A3A3A3A3A3'')"
proof -
  have h1: "env world_present ''TRUST_PARAMS'' \<noteq> ''1''"
    and h2: "''/p/a.vk'' \<notin> checked world_present"
    and h3: "open_fault world_present ''/p/a.vk'' = None"
    and h4: "files world_present ''/p/a.vk'' = Some [1, 2, 3]"
    and h5: "read_fault world_present ''/p/a.vk'' = None"
    by (simp_all add: world_present_def world0_def)
  have h6: "length (blake2b_Sum512 lib0 [1, 2, 3]) = 64"
    by (simp add: lib0_def)
  have h7: "''a3a3a3a3a3a3a3a3a3a3a3a3a3a3a3a3'' = hex_EncodeToString (take 16 (blake2b_Sum512 lib0 [1, 2, 3]))"
    by (simp add: sum3 hex_a3)
  have up: "\<exists>c \<in> set (Digest entry_upper). is_upper c"
    by (simp add: entry_upper_def is_upper_def)
  then have "length (Digest entry_upper) \<noteq> 32 \<or> (\<exists>c \<in> set (Digest entry_upper). is_upper c)"
    by blast
  with checkFile_sum_lowercase_hex [OF h1 h2 h3 h4 h5 h6 h7, of entry_upper]
  have "fst (checkFile lib0 ''/p/a.vk'' entry_upper world_present) =
          Some (mismatch ''/p/a.vk'' ''a3a3a3a3a3a3a3a3a3a3a3a3a3a3a3a3'' (Digest entry_upper))"
    by blast
  with up show ?thesis
    by (simp add: entry_upper_def)
qed

end
